theory Spec2Isabelle
  imports Complex_Main
begin

section \<open>Shared JavaScript helpers\<close>

text \<open>
  lodash's \<^verbatim>\<open>get(object, path, defaultValue)\<close>: the default is returned when the
  object is missing or the path resolves to \<^verbatim>\<open>undefined\<close>. A missing object and a
  missing field are both \<open>None\<close>. (\<^verbatim>\<open>null\<close> is not modelled: the list fields read
  this way are arrays in every loaded GraphQL response.)
\<close>

definition get_default :: "'r option \<Rightarrow> ('r \<Rightarrow> 'a option) \<Rightarrow> 'a \<Rightarrow> 'a" where
  "get_default object path defaultValue =
     (case object of
        None \<Rightarrow> defaultValue
      | Some obj \<Rightarrow> (case path obj of None \<Rightarrow> defaultValue | Some v \<Rightarrow> v))"

section \<open>Host fees report: the fee time-series aggregator\<close>

subsection \<open>Data\<close>

text \<open>
  The code reads a node's date only through \<^verbatim>\<open>new Date(node.date).getMonth()\<close>. A
  date is therefore kept at month granularity: the number of whole calendar months
  since year 0 (local time), of which \<open>getMonth\<close> is the remainder modulo 12, a
  number from 0 (January) to 11 (December).
\<close>

type_synonym date = nat

definition getMonth :: "date \<Rightarrow> nat" where
  "getMonth d = d mod 12"

text \<open>
  \<^verbatim>\<open>amount { value valueInCents currency }\<close>. The minor-unit amount is an integer.
  The major-unit amount is a JavaScript number (a double); it is modelled by a rational,
  and the quotient \<^verbatim>\<open>valueInCents / 100\<close> by the exact quotient, where the program holds
  the double nearest to it. The properties below are therefore stated on single
  quotients and on minor-unit integers; none adds major-unit values of the code, whose
  floating-point sum can differ from the exact one (0.05 + 0.01 is not 0.06).
\<close>

record amount =
  amount_value :: rat
  valueInCents :: int
  currency :: string

text \<open>A node of \<^verbatim>\<open>hostFees\<close>; a node of \<^verbatim>\<open>hostFeeShare\<close> adds the settlement status.\<close>

record node =
  date :: date
  amount :: amount

record share_node = node +
  settlementStatus :: string

record time_series =
  hostFees_nodes :: "node list option"
  hostFeeShare_nodes :: "share_node list option"

text \<open>One chart series: \<^verbatim>\<open>{ name, data }\<close>.\<close>

record series =
  name :: string
  data :: "rat list"

subsection \<open>getHostFeesWithoutShare\<close>

text \<open>\<^verbatim>\<open>x || 0\<close> on an entry of the per-month totals: 0 when the entry is missing or 0.\<close>

definition or_0 :: "int option \<Rightarrow> int" where
  "or_0 v = (case v of None \<Rightarrow> 0 | Some t \<Rightarrow> if t \<noteq> 0 then t else 0)"

text \<open>The body of the \<^verbatim>\<open>reduce\<close> callback: add the node's cents to its month's entry.\<close>

definition addShare :: "(nat \<rightharpoonup> int) \<Rightarrow> 'b node_scheme \<Rightarrow> (nat \<rightharpoonup> int)" where
  "addShare result node =
     (let monthKey = getMonth (date node)
      in result(monthKey \<mapsto> or_0 (result monthKey) + valueInCents (amount node)))"

definition totalHostFeeSharePerMonthInCents :: "'b node_scheme list \<Rightarrow> (nat \<rightharpoonup> int)" where
  "totalHostFeeSharePerMonthInCents hostFeeShareNodes = foldl addShare Map.empty hostFeeShareNodes"

text \<open>
  The body of the \<^verbatim>\<open>map\<close> callback. \<^verbatim>\<open>if (total[monthKey])\<close> holds when the entry
  exists and is not 0; the spread \<^verbatim>\<open>{ ...node, amount: { ...node.amount, ... } }\<close>
  is a record update, which keeps every other field.
\<close>

definition withoutShare :: "(nat \<rightharpoonup> int) \<Rightarrow> 'a node_scheme \<Rightarrow> 'a node_scheme" where
  "withoutShare totals node =
     (let monthKey = getMonth (date node)
      in case totals monthKey of
           None \<Rightarrow> node
         | Some t \<Rightarrow>
             if t \<noteq> 0
             then (let cents = valueInCents (amount node) - t
                   in node\<lparr>amount := (amount node)\<lparr>valueInCents := cents,
                                                     amount_value := of_int cents / 100\<rparr>\<rparr>)
             else node)"

definition getHostFeesWithoutShare ::
    "'a node_scheme list \<Rightarrow> 'b node_scheme list \<Rightarrow> 'a node_scheme list" where
  "getHostFeesWithoutShare hostFeeNodes hostFeeShareNodes =
     map (withoutShare (totalHostFeeSharePerMonthInCents hostFeeShareNodes)) hostFeeNodes"

subsection \<open>getSeriesFromData\<close>

text \<open>
  \<^verbatim>\<open>dataToSeries\<close>: twelve zeros, then one write per record at its month. The index
  is \<open>getMonth\<close> of a date, below 12, so every write is inside the array.
\<close>

definition dataToSeries :: "'a node_scheme list \<Rightarrow> rat list" where
  "dataToSeries nodes =
     foldl (\<lambda>series n. series[getMonth (date n) := amount_value (amount n)])
       (replicate 12 0) nodes"

text \<open>
  lodash's \<^verbatim>\<open>groupBy\<close> followed by \<^verbatim>\<open>Object.entries\<close>: a record joins the group of
  its key, and a new key opens a group after the existing ones. (Settlement statuses
  are enum names, so no key is an array index, which \<^verbatim>\<open>Object.entries\<close> would list
  first.)
\<close>

fun group_insert :: "'k \<Rightarrow> 'v \<Rightarrow> ('k \<times> 'v list) list \<Rightarrow> ('k \<times> 'v list) list" where
  "group_insert k v [] = [(k, [v])]"
| "group_insert k v ((k', vs) # rest) =
     (if k = k' then (k', vs @ [v]) # rest else (k', vs) # group_insert k v rest)"

definition groupBy :: "('v \<Rightarrow> 'k) \<Rightarrow> 'v list \<Rightarrow> ('k \<times> 'v list) list" where
  "groupBy iteratee collection = foldl (\<lambda>result v. group_insert (iteratee v) v result) [] collection"

text \<open>
  The label lookup \<^verbatim>\<open>i18nTransactionSettlementStatus(intl, status)\<close> is an external
  collaborator and is taken as a parameter.
\<close>

definition getSeriesFromData :: "(string \<Rightarrow> string) \<Rightarrow> time_series option \<Rightarrow> series list" where
  "getSeriesFromData i18nTransactionSettlementStatus timeSeries =
     (let hostFeeNodes = get_default timeSeries hostFees_nodes [];
          hostFeeShareNodes = get_default timeSeries hostFeeShare_nodes []
      in \<lparr>name = ''Host profit'',
          data = dataToSeries (getHostFeesWithoutShare hostFeeNodes hostFeeShareNodes)\<rparr>
         # map (\<lambda>(status, nodes).
                  \<lparr>name = ''Host fee share ('' @ i18nTransactionSettlementStatus status @ '')'',
                   data = dataToSeries nodes\<rparr>)
             (groupBy settlementStatus hostFeeShareNodes))"

subsection \<open>Notions the fee claims are stated with\<close>

text \<open>
  The settlement total of a month in minor units: the sum of \<open>valueInCents\<close> over the
  records whose date falls in month \<open>m\<close> (0 when there is none). This is the quantity
  the claims call the settlement total; the code computes it as
  \<open>totalHostFeeSharePerMonthInCents\<close>.
\<close>

definition monthTotalInCents :: "'b node_scheme list \<Rightarrow> nat \<Rightarrow> int" where
  "monthTotalInCents nodes m =
     sum_list (map (\<lambda>s. valueInCents (amount s)) (filter (\<lambda>s. getMonth (date s) = m) nodes))"

text \<open>
  The total of a month in major units, over the records of that month. It is used only
  to state the round-trip property as first claimed, on an input with whole amounts.
\<close>

definition monthTotal :: "'b node_scheme list \<Rightarrow> nat \<Rightarrow> rat" where
  "monthTotal nodes m =
     sum_list (map (\<lambda>s. amount_value (amount s)) (filter (\<lambda>s. getMonth (date s) = m) nodes))"

text \<open>The data model's invariant on an amount: major = minor / 100.\<close>

definition consistent :: "amount \<Rightarrow> bool" where
  "consistent a \<longleftrightarrow> amount_value a = of_int (valueInCents a) / 100"

text \<open>
  The chart is stacked: the height drawn for month \<open>m\<close> is the sum, over all series,
  of their value at \<open>m\<close> (the net-profit series plus every status series). Like
  \<open>monthTotal\<close> it is used only to state the round-trip property as first claimed.
\<close>

definition stackedTotal :: "series list \<Rightarrow> nat \<Rightarrow> rat" where
  "stackedTotal out m = sum_list (map (\<lambda>s. data s ! m) out)"

subsection \<open>getActiveYearsOptions\<close>

datatype js_error = RangeError

record host =
  createdAt :: string
  host_currency :: string

text \<open>An option of the year select: \<^verbatim>\<open>{ value: year, label: year }\<close>.\<close>

record year_option =
  option_value :: int
  label :: int

text \<open>
  \<^verbatim>\<open>parseInt(string)\<close> with no radix, as ECMAScript defines it: leading white space is
  skipped, one sign is read, a \<^verbatim>\<open>0x\<close> prefix switches to radix 16, and the longest
  run of digits of the radix is the number; \<open>None\<close> is \<^verbatim>\<open>NaN\<close>. (Strings are bytes
  here, so only the ASCII white space is recognised.)
\<close>

definition isWhiteSpace :: "char \<Rightarrow> bool" where
  "isWhiteSpace c \<longleftrightarrow> c \<in> {CHR '' '', CHR 0x09, CHR 0x0A, CHR 0x0B, CHR 0x0C, CHR 0x0D}"

definition digitValue :: "char \<Rightarrow> nat option" where
  "digitValue c =
     (let n = (of_char c :: nat)
      in if 48 \<le> n \<and> n \<le> 57 then Some (n - 48)
         else if 97 \<le> n \<and> n \<le> 122 then Some (n - 87)
         else if 65 \<le> n \<and> n \<le> 90 then Some (n - 55)
         else None)"

definition radixDigit :: "nat \<Rightarrow> char \<Rightarrow> nat option" where
  "radixDigit R c = (case digitValue c of None \<Rightarrow> None | Some d \<Rightarrow> if d < R then Some d else None)"

definition stripSign :: "string \<Rightarrow> int \<times> string" where
  "stripSign S =
     (case S of
        [] \<Rightarrow> (1, S)
      | c # rest \<Rightarrow> if c = CHR ''-'' then (- 1, rest) else if c = CHR ''+'' then (1, rest) else (1, S))"

definition stripPrefix :: "string \<Rightarrow> nat \<times> string" where
  "stripPrefix S =
     (case S of
        c # x # rest \<Rightarrow>
          if c = CHR ''0'' \<and> (x = CHR ''x'' \<or> x = CHR ''X'') then (16, rest) else (10, S)
      | _ \<Rightarrow> (10, S))"

definition parseInt :: "string \<Rightarrow> int option" where
  "parseInt string =
     (let (sign, S) = stripSign (dropWhile isWhiteSpace string);
          (R, S') = stripPrefix S;
          Z = takeWhile (\<lambda>c. radixDigit R c \<noteq> None) S'
      in if Z = [] then None
         else Some (sign * int (foldl (\<lambda>n c. n * R + the (radixDigit R c)) 0 Z)))"

text \<open>\<^verbatim>\<open>string.split('-')[0]\<close>: the text before the first \<^verbatim>\<open>-\<close> (all of it when there is none).\<close>

definition split_first :: "string \<Rightarrow> string" where
  "split_first string = takeWhile (\<lambda>c. c \<noteq> CHR ''-'') string"

text \<open>A decimal digit, for stating which timestamps start with a four-digit year.\<close>

definition isDecimalDigit :: "char \<Rightarrow> bool" where
  "isDecimalDigit c \<longleftrightarrow> c \<in> set ''0123456789''"

text \<open>
  The current year \<^verbatim>\<open>new Date().getFullYear()\<close> is read from the clock and is a
  parameter here. \<^verbatim>\<open>Array(n)\<close> throws a RangeError unless \<open>n\<close> is an integer from 0
  to \<open>2\<^sup>3\<^sup>2 - 1\<close>; \<^verbatim>\<open>NaN\<close> (an unparsable year) is no such integer.
\<close>

definition getActiveYearsOptions :: "int \<Rightarrow> host option \<Rightarrow> js_error + year_option list" where
  "getActiveYearsOptions currentYear host =
     (let firstYear = (case host of Some h \<Rightarrow> parseInt (split_first (createdAt h))
                                   | None \<Rightarrow> Some currentYear)
      in case firstYear of
           None \<Rightarrow> Inl RangeError
         | Some first \<Rightarrow>
             if currentYear - first + 1 < 0 \<or> 2 ^ 32 \<le> currentYear - first + 1
             then Inl RangeError
             else (let activeYears = map (\<lambda>year. int year + first) [0 ..< nat (currentYear - first + 1)]
                   in Inr (map (\<lambda>year. \<lparr>option_value = year, label = year\<rparr>) activeYears)))"

section \<open>Team members: the roster reconciler\<close>

subsection \<open>JavaScript values\<close>

text \<open>
  The values the roster code tests for truth: \<^verbatim>\<open>undefined\<close> (also standing for
  \<^verbatim>\<open>null\<close> and a missing field), booleans and strings. \<^verbatim>\<open>a && b\<close> is \<open>a\<close> when \<open>a\<close>
  is falsy and \<open>b\<close> otherwise.
\<close>

datatype jsval = JUndefined | JBool bool | JStr string

fun truthy :: "jsval \<Rightarrow> bool" where
  "truthy JUndefined = False"
| "truthy (JBool b) = b"
| "truthy (JStr s) = (s \<noteq> [])"

definition js_and :: "jsval \<Rightarrow> jsval \<Rightarrow> jsval" where
  "js_and a b = (if truthy a then b else a)"

text \<open>Reading an optional string field of an object.\<close>

definition field :: "string option \<Rightarrow> jsval" where
  "field v = (case v of None \<Rightarrow> JUndefined | Some s \<Rightarrow> JStr s)"

subsection \<open>Data\<close>

text \<open>The account a member or an invitation refers to (\<^verbatim>\<open>id name slug imageUrl\<close>).\<close>

record account =
  account_id :: "string option"
  account_name :: "string option"
  slug :: "string option"
  imageUrl :: "string option"

text \<open>
  An element of the members list: a member node or a pending invitation, as the
  GraphQL query of the component returns them, or the object \<^verbatim>\<open>{}\<close>. Every field may
  be missing (\<open>None\<close>). \<open>ident\<close> is the field \<^verbatim>\<open>id\<close>. Member nodes come with
  \<open>account\<close>, invitations with \<open>memberAccount\<close>; the query asks for no field named
  \<open>member\<close>, which \<open>getMembersCollectiveIds\<close> reads.
\<close>

record member_entry =
  ident :: "string option"
  role :: "string option"
  since :: "string option"
  description :: "string option"
  typename :: "string option"
  account :: "account option"
  memberAccount :: "account option"
  member :: "account option"

text \<open>\<^verbatim>\<open>props.data\<close>: \<^verbatim>\<open>memberInvitations\<close> and \<^verbatim>\<open>account.members.nodes\<close>.\<close>

record members_data =
  memberInvitations :: "member_entry list option"
  account_members_nodes :: "member_entry list option"

text \<open>The object \<^verbatim>\<open>{}\<close> and \<^verbatim>\<open>const EMPTY_MEMBERS = [{}]\<close>.\<close>

definition empty_object :: member_entry where
  "empty_object =
     \<lparr>ident = None, role = None, since = None, description = None, typename = None,
      account = None, memberAccount = None, member = None\<rparr>"

definition EMPTY_MEMBERS :: "member_entry list" where
  "EMPTY_MEMBERS = [empty_object]"

text \<open>
  Modelled from the spec: the constant \<^verbatim>\<open>roles.ADMIN\<close> of \<^verbatim>\<open>lib/constants/roles\<close>,
  which is not among the sources; the spec names the role ADMIN.
\<close>

definition roles_ADMIN :: string where
  "roles_ADMIN = ''ADMIN''"

subsection \<open>getMembersFromProps\<close>

text \<open>lodash's \<^verbatim>\<open>omit(i, ['id'])\<close>: the object without its \<^verbatim>\<open>id\<close>.\<close>

definition omit_id :: "member_entry \<Rightarrow> member_entry" where
  "omit_id i = i\<lparr>ident := None\<rparr>"

definition getMembersFromProps :: "members_data option \<Rightarrow> member_entry list" where
  "getMembersFromProps props_data =
     (let pendingInvitations = get_default props_data memberInvitations EMPTY_MEMBERS;
          pendingInvitationsMembersData = map omit_id pendingInvitations;
          members = get_default props_data account_members_nodes EMPTY_MEMBERS;
          all = members @ pendingInvitationsMembersData
      in if length all = 0 then EMPTY_MEMBERS else all)"

subsection \<open>Derived values of the render functions\<close>

text \<open>\<^verbatim>\<open>members.filter(m => m.role === roles.ADMIN && m.id).length\<close> of \<^verbatim>\<open>renderSection\<close>.\<close>

definition nbAdmins :: "member_entry list \<Rightarrow> nat" where
  "nbAdmins members =
     length (filter (\<lambda>m. truthy (js_and (JBool (role m = Some roles_ADMIN)) (field (ident m))))
       members)"

text \<open>
  \<^verbatim>\<open>nbAdmins === 1 && currentMember?.role === roles.ADMIN && currentMember?.id\<close> of
  \<^verbatim>\<open>renderMember\<close>; \<^verbatim>\<open>this.state.currentMember\<close> is \<^verbatim>\<open>null\<close> (\<open>None\<close>) until an entry
  is picked for editing.
\<close>

definition isLastAdmin :: "nat \<Rightarrow> member_entry option \<Rightarrow> jsval" where
  "isLastAdmin nb currentMember =
     js_and
       (js_and (JBool (nb = 1)) (JBool (Option.bind currentMember role = Some roles_ADMIN)))
       (field (Option.bind currentMember ident))"

text \<open>\<^verbatim>\<open>members.map(member => member.member && member.member.id)\<close>.\<close>

definition getMembersCollectiveIds :: "member_entry list \<Rightarrow> string option list" where
  "getMembersCollectiveIds members =
     map (\<lambda>m. case member m of None \<Rightarrow> None | Some a \<Rightarrow> account_id a) members"

text \<open>\<^verbatim>\<open>member.account || member.memberAccount\<close> of \<^verbatim>\<open>renderMember\<close>.\<close>

definition memberCollective :: "member_entry \<Rightarrow> account option" where
  "memberCollective m = (case account m of Some a \<Rightarrow> Some a | None \<Rightarrow> memberAccount m)"

section \<open>Example inputs\<close>

text \<open>
  Fee records of January 2021 (month index \<open>2021 * 12 = 24252\<close>) and February 2021,
  and a loaded time series holding given records.
\<close>

definition fee_jan :: node where
  "fee_jan = \<lparr>date = 24252, amount = \<lparr>amount_value = 10, valueInCents = 1000, currency = ''USD''\<rparr>\<rparr>"

definition share_jan_invoiced :: share_node where
  "share_jan_invoiced =
     \<lparr>date = 24252, amount = \<lparr>amount_value = 3, valueInCents = 300, currency = ''USD''\<rparr>,
      settlementStatus = ''INVOICED''\<rparr>"

definition share_jan_invoiced_again :: share_node where
  "share_jan_invoiced_again =
     \<lparr>date = 24252, amount = \<lparr>amount_value = 2, valueInCents = 200, currency = ''USD''\<rparr>,
      settlementStatus = ''INVOICED''\<rparr>"

definition share_jan_settled :: share_node where
  "share_jan_settled =
     \<lparr>date = 24252, amount = \<lparr>amount_value = 2, valueInCents = 200, currency = ''USD''\<rparr>,
      settlementStatus = ''SETTLED''\<rparr>"

definition share_feb_invoiced :: share_node where
  "share_feb_invoiced =
     \<lparr>date = 24253, amount = \<lparr>amount_value = 1, valueInCents = 100, currency = ''USD''\<rparr>,
      settlementStatus = ''INVOICED''\<rparr>"

definition loaded_series :: "node list \<Rightarrow> share_node list \<Rightarrow> time_series option" where
  "loaded_series fees shares = Some \<lparr>hostFees_nodes = Some fees, hostFeeShare_nodes = Some shares\<rparr>"

text \<open>Hosts created in 2019 and in 2022.\<close>

definition host_2019 :: host where
  "host_2019 = \<lparr>createdAt = ''2019-03-04T10:00:00.000Z'', host_currency = ''USD''\<rparr>"

definition host_2022 :: host where
  "host_2022 = \<lparr>createdAt = ''2022-03-04T10:00:00.000Z'', host_currency = ''USD''\<rparr>"

text \<open>
  A confirmed admin as the members query returns it (with \<open>account\<close>), a pending
  invitation (with \<open>memberAccount\<close>), and loaded \<^verbatim>\<open>props.data\<close> holding given lists.
\<close>

definition ada_account :: account where
  "ada_account =
     \<lparr>account_id = Some ''acc1'', account_name = Some ''Ada'', slug = Some ''ada'', imageUrl = None\<rparr>"

definition bob_account :: account where
  "bob_account =
     \<lparr>account_id = Some ''acc2'', account_name = Some ''Bob'', slug = Some ''bob'', imageUrl = None\<rparr>"

definition admin_member :: member_entry where
  "admin_member =
     \<lparr>ident = Some ''m1'', role = Some ''ADMIN'', since = Some ''2021-01-01'', description = None,
      typename = Some ''Member'', account = Some ada_account, memberAccount = None, member = None\<rparr>"

definition pending_invitation :: member_entry where
  "pending_invitation =
     \<lparr>ident = Some ''i1'', role = Some ''ADMIN'', since = Some ''2021-02-01'', description = None,
      typename = Some ''MemberInvitation'', account = None, memberAccount = Some bob_account,
      member = None\<rparr>"

definition loaded_data :: "member_entry list \<Rightarrow> member_entry list \<Rightarrow> members_data option" where
  "loaded_data members invitations =
     Some \<lparr>memberInvitations = Some invitations, account_members_nodes = Some members\<rparr>"

section \<open>Properties of the fee aggregator\<close>

subsection \<open>The per-month settlement totals\<close>

lemma getMonth_less: "getMonth d < 12"
  by (simp add: getMonth_def)

lemmas fee_examples = fee_jan_def share_jan_invoiced_def share_jan_invoiced_again_def
  share_jan_settled_def share_feb_invoiced_def loaded_series_def

lemma or_0_simps: "or_0 None = 0" "or_0 (Some t) = t"
  by (simp_all add: or_0_def)

lemma monthTotalInCents_snoc:
  "monthTotalInCents (xs @ [x]) k =
     monthTotalInCents xs k + (if getMonth (date x) = k then valueInCents (amount x) else 0)"
  by (simp add: monthTotalInCents_def)

lemma monthTotalInCents_none:
  "\<forall>s\<in>set xs. getMonth (date s) \<noteq> k \<Longrightarrow> monthTotalInCents xs k = 0"
  by (induction xs) (auto simp: monthTotalInCents_def)

text \<open>The map built by the \<^verbatim>\<open>reduce\<close> holds, for each month with a record, that month's sum.\<close>

lemma totals_lookup:
  "totalHostFeeSharePerMonthInCents shares k =
     (if \<exists>s\<in>set shares. getMonth (date s) = k then Some (monthTotalInCents shares k) else None)"
proof (induction shares rule: rev_induct)
  case Nil
  show ?case by (simp add: totalHostFeeSharePerMonthInCents_def)
next
  case (snoc x xs)
  have step: "totalHostFeeSharePerMonthInCents (xs @ [x]) =
      addShare (totalHostFeeSharePerMonthInCents xs) x"
    by (simp add: totalHostFeeSharePerMonthInCents_def)
  show ?case
  proof (cases "getMonth (date x) = k")
    case True
    then show ?thesis
      using snoc.IH
      by (auto simp: step addShare_def Let_def or_0_simps monthTotalInCents_snoc
          monthTotalInCents_none)
  next
    case False
    then show ?thesis
      using snoc.IH
      by (auto simp: step addShare_def Let_def monthTotalInCents_snoc)
  qed
qed

subsection \<open>Netting one record\<close>

lemma withoutShare_date [simp]: "date (withoutShare totals n) = date n"
  by (simp add: withoutShare_def Let_def split: option.splits)

lemma withoutShare_shape:
  "\<exists>c v. withoutShare totals n = n\<lparr>amount := (amount n)\<lparr>valueInCents := c, amount_value := v\<rparr>\<rparr>"
proof (cases "withoutShare totals n = n")
  case True
  have "n = n\<lparr>amount := (amount n)\<lparr>valueInCents := valueInCents (amount n),
      amount_value := amount_value (amount n)\<rparr>\<rparr>"
    by simp
  with True show ?thesis by metis
next
  case False
  then show ?thesis
    by (auto simp: withoutShare_def Let_def split: option.splits if_splits)
qed

lemma getHostFeesWithoutShare_nth:
  "i < length fees \<Longrightarrow>
     getHostFeesWithoutShare fees shares ! i =
       withoutShare (totalHostFeeSharePerMonthInCents shares) (fees ! i)"
  by (simp add: getHostFeesWithoutShare_def)

lemma filter_month_withoutShare:
  "filter (\<lambda>r. getMonth (date r) = m) (map (withoutShare totals) xs) =
     map (withoutShare totals) (filter (\<lambda>r. getMonth (date r) = m) xs)"
  by (induction xs) simp_all

lemma withoutShare_value:
  assumes "consistent (amount n)"
  shows "amount_value (amount (withoutShare (totalHostFeeSharePerMonthInCents shares) n)) =
     of_int (valueInCents (amount n) - monthTotalInCents shares (getMonth (date n))) / 100"
  using assms
  by (auto simp: withoutShare_def Let_def totals_lookup consistent_def monthTotalInCents_none
      split: option.splits)

text \<open>
  Claim C3 (netting contract). For every gross fee record \<open>r\<close>, at position \<open>i\<close>, whose
  date falls in month \<open>m\<close>, with \<open>t\<close> the sum of the settlement records' minor-unit amounts
  in month \<open>m\<close>: if \<open>t\<close> is not zero, the record at position \<open>i\<close> of the net-profit stream
  has \<open>valueInCents = r.valueInCents - t\<close> and \<open>value = (r.valueInCents - t) / 100\<close>; if
  \<open>t\<close> is zero, or no settlement record falls in \<open>m\<close>, the record at position \<open>i\<close> is \<open>r\<close>
  itself.
\<close>

theorem netting_contract:
  assumes "i < length hostFeeNodes"
    and "r = hostFeeNodes ! i"
    and "m = getMonth (date r)"
    and "t = monthTotalInCents hostFeeShareNodes m"
    and "out = getHostFeesWithoutShare hostFeeNodes hostFeeShareNodes ! i"
  shows "(t \<noteq> 0 \<longrightarrow>
            valueInCents (amount out) = valueInCents (amount r) - t \<and>
            amount_value (amount out) = of_int (valueInCents (amount r) - t) / 100) \<and>
         (t = 0 \<or> (\<forall>s\<in>set hostFeeShareNodes. getMonth (date s) \<noteq> m) \<longrightarrow> out = r)"
proof -
  have out: "out = withoutShare (totalHostFeeSharePerMonthInCents hostFeeShareNodes) r"
    using assms(1,2,5) by (simp add: getHostFeesWithoutShare_nth)
  have none: "t = 0" if "\<forall>s\<in>set hostFeeShareNodes. getMonth (date s) \<noteq> m"
    using that assms(4) by (simp add: monthTotalInCents_none)
  have lookup: "totalHostFeeSharePerMonthInCents hostFeeShareNodes m =
      (if \<exists>s\<in>set hostFeeShareNodes. getMonth (date s) = m then Some t else None)"
    using assms(4) by (simp add: totals_lookup)
  show ?thesis
  proof (cases "t = 0")
    case True
    then show ?thesis
      using lookup assms(3) by (auto simp: out withoutShare_def Let_def)
  next
    case False
    with none have "\<exists>s\<in>set hostFeeShareNodes. getMonth (date s) = m" by blast
    with lookup have "totalHostFeeSharePerMonthInCents hostFeeShareNodes m = Some t" by simp
    with False assms(3) show ?thesis
      using none by (auto simp: out withoutShare_def Let_def)
  qed
qed

text \<open>
  The contract at work: January fees of 1000 cents against a January settlement of 300
  cents give 700 cents and 7.00; against a February settlement only, the January record
  is passed through.
\<close>

theorem netting_contract_witness:
  "valueInCents (amount (getHostFeesWithoutShare [fee_jan] [share_jan_invoiced] ! 0)) = 700 \<and>
   amount_value (amount (getHostFeesWithoutShare [fee_jan] [share_jan_invoiced] ! 0)) = 7 \<and>
   getHostFeesWithoutShare [fee_jan] [share_feb_invoiced] ! 0 = fee_jan"
  using netting_contract [of 0 "[fee_jan]" fee_jan 0 300 "[share_jan_invoiced]"
        "getHostFeesWithoutShare [fee_jan] [share_jan_invoiced] ! 0"]
    netting_contract [of 0 "[fee_jan]" fee_jan 0 0 "[share_feb_invoiced]"
        "getHostFeesWithoutShare [fee_jan] [share_feb_invoiced] ! 0"]
  by (simp add: fee_examples getMonth_def monthTotalInCents_def)

text \<open>
  Claim C10 (frame property of netting). \<open>getHostFeesWithoutShare\<close> returns one record
  per gross fee record, in the same order, and each output record is the input record
  with at most \<open>amount.valueInCents\<close> and \<open>amount.value\<close> replaced: the date, the
  currency and every further field are those of the input.
\<close>

theorem netting_frame:
  assumes "out = getHostFeesWithoutShare hostFeeNodes hostFeeShareNodes"
  shows "length out = length hostFeeNodes \<and>
         (\<forall>i<length hostFeeNodes.
            date (out ! i) = date (hostFeeNodes ! i) \<and>
            currency (amount (out ! i)) = currency (amount (hostFeeNodes ! i)) \<and>
            node.more (out ! i) = node.more (hostFeeNodes ! i) \<and>
            (\<exists>c v. out ! i =
               (hostFeeNodes ! i)\<lparr>amount :=
                 (amount (hostFeeNodes ! i))\<lparr>valueInCents := c, amount_value := v\<rparr>\<rparr>))"
proof (intro conjI allI impI)
  show "length out = length hostFeeNodes"
    by (simp add: assms getHostFeesWithoutShare_def)
next
  fix i assume i: "i < length hostFeeNodes"
  let ?totals = "totalHostFeeSharePerMonthInCents hostFeeShareNodes"
  have nth: "out ! i = withoutShare ?totals (hostFeeNodes ! i)"
    using i by (simp add: assms getHostFeesWithoutShare_nth)
  obtain c v where shape: "withoutShare ?totals (hostFeeNodes ! i) =
      (hostFeeNodes ! i)\<lparr>amount := (amount (hostFeeNodes ! i))\<lparr>valueInCents := c, amount_value := v\<rparr>\<rparr>"
    using withoutShare_shape by blast
  show "date (out ! i) = date (hostFeeNodes ! i)"
    by (simp add: nth)
  show "currency (amount (out ! i)) = currency (amount (hostFeeNodes ! i))"
    by (simp add: nth shape)
  show "node.more (out ! i) = node.more (hostFeeNodes ! i)"
    by (simp add: nth shape)
  show "\<exists>c v. out ! i =
      (hostFeeNodes ! i)\<lparr>amount := (amount (hostFeeNodes ! i))\<lparr>valueInCents := c, amount_value := v\<rparr>\<rparr>"
    unfolding nth by (rule withoutShare_shape)
qed

theorem netting_frame_witness:
  "length (getHostFeesWithoutShare [fee_jan] [share_jan_invoiced]) = 1 \<and>
   date (getHostFeesWithoutShare [fee_jan] [share_jan_invoiced] ! 0) = 24252 \<and>
   currency (amount (getHostFeesWithoutShare [fee_jan] [share_jan_invoiced] ! 0)) = ''USD''"
  using netting_frame [of "getHostFeesWithoutShare [fee_jan] [share_jan_invoiced]" "[fee_jan]"
        "[share_jan_invoiced]"]
  by (simp add: fee_jan_def)

subsection \<open>Series\<close>

lemma dataToSeries_snoc:
  "dataToSeries (xs @ [x]) = (dataToSeries xs)[getMonth (date x) := amount_value (amount x)]"
  by (simp add: dataToSeries_def)

lemma length_dataToSeries [simp]: "length (dataToSeries xs) = 12"
  by (induction xs rule: rev_induct) (simp_all add: dataToSeries_snoc, simp add: dataToSeries_def)

lemma dataToSeries_nth:
  "m < 12 \<Longrightarrow> dataToSeries xs ! m =
     (case filter (\<lambda>r. getMonth (date r) = m) xs of
        [] \<Rightarrow> 0
      | y # ys \<Rightarrow> amount_value (amount (last (y # ys))))"
proof (induction xs rule: rev_induct)
  case Nil
  then show ?case by (simp add: dataToSeries_def)
next
  case (snoc x xs)
  then show ?case
    by (auto simp: dataToSeries_snoc nth_list_update split: list.splits)
qed

lemma dataToSeries_nth_zero:
  assumes "m < 12" and "\<forall>r\<in>set xs. getMonth (date r) \<noteq> m"
  shows "dataToSeries xs ! m = 0"
proof -
  from assms(2) have "filter (\<lambda>r. getMonth (date r) = m) xs = []"
    by (auto simp: filter_empty_conv)
  with dataToSeries_nth [OF assms(1), of xs] show ?thesis by simp
qed

lemma filter_distinct_key:
  "distinct (map f xs) \<Longrightarrow>
     filter (\<lambda>x. f x = k) xs = [] \<or> (\<exists>y. filter (\<lambda>x. f x = k) xs = [y])"
proof (induction xs)
  case Nil
  show ?case by simp
next
  case (Cons a xs)
  show ?case
  proof (cases "f a = k")
    case True
    with Cons.prems have "filter (\<lambda>x. f x = k) xs = []"
      by (auto simp: filter_empty_conv image_iff)
    with True show ?thesis by simp
  next
    case False
    with Cons show ?thesis by simp
  qed
qed

lemma distinct_pair_filter:
  "distinct (map (\<lambda>s. (g s, f s)) xs) \<Longrightarrow> distinct (map g (filter (\<lambda>s. f s = k) xs))"
  by (induction xs) (auto simp: image_iff)

subsection \<open>Grouping by settlement status\<close>

lemma group_insert_keys:
  "fst ` set (group_insert k v acc) = insert k (fst ` set acc)"
  by (induction acc) (force split: if_splits)+

lemma group_insert_distinct:
  "distinct (map fst acc) \<Longrightarrow> distinct (map fst (group_insert k v acc))"
  by (induction acc) (auto simp: group_insert_keys)

lemma groupBy_snoc:
  "groupBy f (xs @ [x]) = group_insert (f x) x (groupBy f xs)"
  by (simp add: groupBy_def)

lemma groupBy_distinct: "distinct (map fst (groupBy f xs))"
  by (induction xs rule: rev_induct) (simp_all add: groupBy_snoc group_insert_distinct, simp add: groupBy_def)

lemma group_insert_sum:
  "sum_list (map (\<lambda>(k, vs). sum_list (map h vs)) (group_insert k v acc)) =
     sum_list (map (\<lambda>(k, vs). sum_list (map h vs)) acc) + (h v :: 'a :: comm_monoid_add)"
  by (induction acc) (auto simp: add.assoc add.commute add.left_commute)

lemma groupBy_sum:
  "sum_list (map (\<lambda>(k, vs). sum_list (map h vs)) (groupBy f xs)) =
     (sum_list (map h xs) :: 'a :: comm_monoid_add)"
  by (induction xs rule: rev_induct) (simp_all add: groupBy_snoc group_insert_sum, simp add: groupBy_def)

lemma map_of_group_insert:
  "map_of (group_insert k v acc) =
     (map_of acc)(k \<mapsto> (case map_of acc k of None \<Rightarrow> [v] | Some vs \<Rightarrow> vs @ [v]))"
  by (induction acc) (auto simp: fun_eq_iff)

lemma map_of_groupBy:
  "map_of (groupBy f xs) k =
     (if k \<in> f ` set xs then Some (filter (\<lambda>y. f y = k) xs) else None)"
proof (induction xs rule: rev_induct)
  case Nil
  show ?case by (simp add: groupBy_def)
next
  case (snoc x xs)
  show ?case
  proof (cases "f x = k")
    case True
    show ?thesis
    proof (cases "k \<in> f ` set xs")
      case True
      with \<open>f x = k\<close> snoc.IH show ?thesis
        by (simp add: groupBy_snoc map_of_group_insert)
    next
      case False
      then have "filter (\<lambda>y. f y = k) xs = []"
        by (auto simp: filter_empty_conv)
      with False \<open>f x = k\<close> snoc.IH show ?thesis
        by (simp add: groupBy_snoc map_of_group_insert)
    qed
  next
    case False
    with snoc.IH show ?thesis
      by (simp add: groupBy_snoc map_of_group_insert)
  qed
qed

lemma groupBy_member:
  assumes "(k, vs) \<in> set (groupBy f xs)"
  shows "vs = filter (\<lambda>y. f y = k) xs \<and> k \<in> f ` set xs"
proof -
  from assms have "map_of (groupBy f xs) k = Some vs"
    by (simp add: groupBy_distinct)
  then show ?thesis
    by (simp add: map_of_groupBy split: if_splits)
qed

lemma monthTotalInCents_sum:
  "monthTotalInCents xs m =
     sum_list (map (\<lambda>s. if getMonth (date s) = m then valueInCents (amount s) else 0) xs)"
  by (induction xs) (simp_all add: monthTotalInCents_def)

lemma group_totals_sum:
  "sum_list (map (\<lambda>g. monthTotalInCents (snd g) m) (groupBy f xs)) = monthTotalInCents xs m"
proof -
  let ?h = "\<lambda>s. if getMonth (date s) = m then valueInCents (amount s) else 0"
  have "map (\<lambda>g. monthTotalInCents (snd g) m) (groupBy f xs) =
      map (\<lambda>(k, vs). sum_list (map ?h vs)) (groupBy f xs)"
    by (simp add: monthTotalInCents_sum split_def)
  then show ?thesis
    by (simp only: groupBy_sum monthTotalInCents_sum)
qed

lemma dataToSeries_nth_cents:
  assumes d: "distinct (map (\<lambda>r. getMonth (date r)) xs)"
    and ok: "\<forall>r\<in>set xs. consistent (amount r)"
    and m: "m < 12"
  shows "dataToSeries xs ! m = of_int (monthTotalInCents xs m) / 100"
  using filter_distinct_key [OF d, of m]
proof
  assume "filter (\<lambda>r. getMonth (date r) = m) xs = []"
  then show ?thesis
    using dataToSeries_nth [OF m, of xs] by (simp add: monthTotalInCents_def)
next
  assume "\<exists>y. filter (\<lambda>r. getMonth (date r) = m) xs = [y]"
  then obtain y where y: "filter (\<lambda>r. getMonth (date r) = m) xs = [y]" ..
  then have "y \<in> set (filter (\<lambda>r. getMonth (date r) = m) xs)" by simp
  with ok have "consistent (amount y)" by simp
  then show ?thesis
    using dataToSeries_nth [OF m, of xs] by (simp add: monthTotalInCents_def y consistent_def)
qed

lemma getSeriesFromData_unfold:
  assumes "hostFeeNodes = get_default timeSeries hostFees_nodes []"
    and "hostFeeShareNodes = get_default timeSeries hostFeeShare_nodes []"
  shows "getSeriesFromData i18n timeSeries =
     \<lparr>name = ''Host profit'',
      data = dataToSeries (getHostFeesWithoutShare hostFeeNodes hostFeeShareNodes)\<rparr>
     # map (\<lambda>(status, nodes).
              \<lparr>name = ''Host fee share ('' @ i18n status @ '')'', data = dataToSeries nodes\<rparr>)
         (groupBy settlementStatus hostFeeShareNodes)"
  by (simp add: getSeriesFromData_def Let_def assms)

lemma net_series_nth_zero:
  assumes "m < 12" and "\<forall>r\<in>set fees. getMonth (date r) \<noteq> m"
  shows "dataToSeries (getHostFeesWithoutShare fees shares) ! m = 0"
  using assms by (intro dataToSeries_nth_zero) (auto simp: getHostFeesWithoutShare_def)

text \<open>
  Claim C4 (twelve slots). For every input, absent or empty lists included, the
  aggregator returns the net-profit series followed by one series per status group, the
  data of every series has length 12, and a slot holds 0 when no record of the series'
  input falls in its month: no gross fee record for the net-profit series, no
  settlement record of the group's status for a status series.
\<close>

theorem series_length_12:
  assumes "hostFeeNodes = get_default timeSeries hostFees_nodes []"
    and "hostFeeShareNodes = get_default timeSeries hostFeeShare_nodes []"
    and "groups = groupBy settlementStatus hostFeeShareNodes"
    and "out = getSeriesFromData i18n timeSeries"
  shows "length out = 1 + length groups \<and>
         (\<forall>s\<in>set out. length (data s) = 12) \<and>
         (\<forall>m<12. (\<forall>r\<in>set hostFeeNodes. getMonth (date r) \<noteq> m) \<longrightarrow> data (out ! 0) ! m = 0) \<and>
         (\<forall>k<length groups. \<forall>m<12.
            (\<forall>s\<in>set hostFeeShareNodes.
               settlementStatus s = fst (groups ! k) \<longrightarrow> getMonth (date s) \<noteq> m) \<longrightarrow>
            data (out ! Suc k) ! m = 0)"
proof -
  note out = getSeriesFromData_unfold [OF assms(1,2), of i18n, folded assms(3,4)]
  have len: "length out = 1 + length groups"
    by (simp add: out)
  have twelve: "\<forall>s\<in>set out. length (data s) = 12"
    by (auto simp: out)
  have net: "data (out ! 0) ! m = 0"
    if "m < 12" "\<forall>r\<in>set hostFeeNodes. getMonth (date r) \<noteq> m" for m
    using that by (simp add: out net_series_nth_zero)
  have status: "data (out ! Suc k) ! m = 0"
    if k: "k < length groups" and m: "m < 12"
      and none: "\<forall>s\<in>set hostFeeShareNodes.
        settlementStatus s = fst (groups ! k) \<longrightarrow> getMonth (date s) \<noteq> m" for k m
  proof -
    obtain st vs where g: "groups ! k = (st, vs)" by (cases "groups ! k")
    with k have "(st, vs) \<in> set (groupBy settlementStatus hostFeeShareNodes)"
      unfolding assms(3) [symmetric] by (metis nth_mem)
    then have vs: "vs = filter (\<lambda>s. settlementStatus s = st) hostFeeShareNodes"
      using groupBy_member by fastforce
    have "\<forall>s\<in>set vs. getMonth (date s) \<noteq> m"
      using none g by (simp add: vs)
    with m have "dataToSeries vs ! m = 0" by (rule dataToSeries_nth_zero)
    with k g show ?thesis by (simp add: out)
  qed
  from len twelve net status show ?thesis by blast
qed

theorem series_length_12_witness:
  "length (getSeriesFromData id (loaded_series [fee_jan] [share_jan_invoiced, share_feb_invoiced])) = 2 \<and>
   length (data (getSeriesFromData id (loaded_series [fee_jan] [share_jan_invoiced, share_feb_invoiced]) ! 0)) = 12 \<and>
   length (data (getSeriesFromData id (loaded_series [fee_jan] [share_jan_invoiced, share_feb_invoiced]) ! 1)) = 12 \<and>
   data (getSeriesFromData id (loaded_series [fee_jan] [share_jan_invoiced, share_feb_invoiced]) ! 0) ! 1 = 0 \<and>
   data (getSeriesFromData id (loaded_series [fee_jan] [share_jan_invoiced, share_feb_invoiced]) ! 1) ! 2 = 0"
proof -
  let ?shares = "[share_jan_invoiced, share_feb_invoiced]"
  let ?out = "getSeriesFromData id (loaded_series [fee_jan] ?shares)"
  have groups: "groupBy settlementStatus ?shares = [(''INVOICED'', ?shares)]"
    by (simp add: groupBy_def fee_examples)
  note inst = series_length_12 [of "[fee_jan]" "loaded_series [fee_jan] ?shares" ?shares
      "groupBy settlementStatus ?shares" ?out id]
  have h: "[fee_jan] = get_default (loaded_series [fee_jan] ?shares) hostFees_nodes []"
    "?shares = get_default (loaded_series [fee_jan] ?shares) hostFeeShare_nodes []"
    by (simp_all add: loaded_series_def get_default_def)
  note inst' = inst [OF h refl refl]
  have len: "length ?out = 2" using inst' by (simp add: groups)
  then have mem: "?out ! 0 \<in> set ?out" "?out ! 1 \<in> set ?out"
    by (simp_all del: One_nat_def)
  have "length (data (?out ! 0)) = 12" "length (data (?out ! 1)) = 12"
    using inst' mem by blast+
  moreover have "data (?out ! 0) ! 1 = 0"
    using inst' by (simp add: fee_jan_def getMonth_def)
  moreover have "data (?out ! 1) ! 2 = 0"
  proof -
    from inst' have "\<forall>k<length (groupBy settlementStatus ?shares). \<forall>m<12.
            (\<forall>s\<in>set ?shares.
               settlementStatus s = fst (groupBy settlementStatus ?shares ! k) \<longrightarrow> getMonth (date s) \<noteq> m) \<longrightarrow>
            data (?out ! Suc k) ! m = 0" by blast
    note all = this
    have p1: "0 < length (groupBy settlementStatus ?shares)"
      by (simp add: groups)
    have p3: "\<forall>s\<in>set ?shares.
        settlementStatus s = fst (groupBy settlementStatus ?shares ! 0) \<longrightarrow> getMonth (date s) \<noteq> 2"
      unfolding groups by (simp add: fee_examples getMonth_def)
    have p2: "(2::nat) < 12"
      by simp
    from all p1 p2 p3 have "data (?out ! Suc 0) ! 2 = 0"
      by blast
    then show ?thesis by simp
  qed
  ultimately show ?thesis using len by simp
qed

text \<open>
  Claim C1 (round trip), as amended. Assume that no month has more than one gross fee
  record, that every amount satisfies major = minor / 100, that no two settlement
  records share both month and status, and that the settlement amounts of every month
  without a gross fee record sum to zero. Let \<open>G\<close> be the gross fee total and \<open>T\<close> the
  settlement total of month \<open>m\<close>, in minor units. Then at each month slot \<open>m\<close> below 12
  the net-profit series holds \<open>(G - T) / 100\<close>, the series of each status holds that
  status's settlement total of month \<open>m\<close> divided by 100, and these minor-unit amounts,
  \<open>G - T\<close> and the totals of all statuses, add up to \<open>G\<close>. The round trip is stated in
  minor units: every slot is one quotient by 100 of an integer, as the code computes it,
  and no major-unit values are added.
\<close>

theorem fee_series_round_trip:
  assumes fees: "hostFeeNodes = get_default timeSeries hostFees_nodes []"
    and shares: "hostFeeShareNodes = get_default timeSeries hostFeeShare_nodes []"
    and groups: "groups = groupBy settlementStatus hostFeeShareNodes"
    and out: "out = getSeriesFromData i18n timeSeries"
    and one_fee: "distinct (map (\<lambda>r. getMonth (date r)) hostFeeNodes)"
    and fees_ok: "\<forall>r\<in>set hostFeeNodes. consistent (amount r)"
    and shares_ok: "\<forall>s\<in>set hostFeeShareNodes. consistent (amount s)"
    and one_share: "distinct (map (\<lambda>s. (getMonth (date s), settlementStatus s)) hostFeeShareNodes)"
    and covered: "\<forall>k<12. (\<forall>r\<in>set hostFeeNodes. getMonth (date r) \<noteq> k) \<longrightarrow>
                    monthTotalInCents hostFeeShareNodes k = 0"
    and m: "m < 12"
    and G: "G = monthTotalInCents hostFeeNodes m"
    and T: "T = monthTotalInCents hostFeeShareNodes m"
  shows "length out = 1 + length groups \<and>
         data (out ! 0) ! m = of_int (G - T) / 100 \<and>
         (\<forall>k<length groups.
            data (out ! Suc k) ! m = of_int (monthTotalInCents (snd (groups ! k)) m) / 100) \<and>
         (G - T) + sum_list (map (\<lambda>g. monthTotalInCents (snd g) m) groups) = G"
proof -
  let ?totals = "totalHostFeeSharePerMonthInCents hostFeeShareNodes"
  note unfold = getSeriesFromData_unfold [OF fees shares, of i18n, folded out groups]
  have len: "length out = 1 + length groups"
    by (simp add: unfold)
  have net: "data (out ! 0) ! m =
      (case map (withoutShare ?totals) (filter (\<lambda>r. getMonth (date r) = m) hostFeeNodes) of
         [] \<Rightarrow> 0
       | y # ys \<Rightarrow> amount_value (amount (last (y # ys))))"
    using dataToSeries_nth [OF m, of "getHostFeesWithoutShare hostFeeNodes hostFeeShareNodes"]
    by (simp add: unfold) (simp add: getHostFeesWithoutShare_def filter_month_withoutShare)
  from filter_distinct_key [OF one_fee, of m]
  have slot0: "data (out ! 0) ! m = of_int (G - T) / 100"
  proof
    assume empty: "filter (\<lambda>r. getMonth (date r) = m) hostFeeNodes = []"
    then have none: "\<forall>r\<in>set hostFeeNodes. getMonth (date r) \<noteq> m"
      by (simp add: filter_empty_conv)
    with covered m have "T = 0" unfolding T by blast
    moreover from none have "G = 0" unfolding G by (rule monthTotalInCents_none)
    ultimately show ?thesis using empty by (simp add: net)
  next
    assume "\<exists>g. filter (\<lambda>r. getMonth (date r) = m) hostFeeNodes = [g]"
    then obtain g where g: "filter (\<lambda>r. getMonth (date r) = m) hostFeeNodes = [g]" ..
    then have "g \<in> set (filter (\<lambda>r. getMonth (date r) = m) hostFeeNodes)" by simp
    then have gm: "getMonth (date g) = m" and gok: "consistent (amount g)"
      using fees_ok by auto
    have "G = valueInCents (amount g)"
      by (simp add: G monthTotalInCents_def g)
    then show ?thesis
      using withoutShare_value [OF gok, of hostFeeShareNodes] by (simp add: net g gm T)
  qed
  have slots: "data (out ! Suc k) ! m = of_int (monthTotalInCents (snd (groups ! k)) m) / 100"
    if k: "k < length groups" for k
  proof -
    obtain st vs where g: "groups ! k = (st, vs)" by (cases "groups ! k")
    with k have "(st, vs) \<in> set (groupBy settlementStatus hostFeeShareNodes)"
      unfolding groups [symmetric] by (metis nth_mem)
    then have vs: "vs = filter (\<lambda>s. settlementStatus s = st) hostFeeShareNodes"
      using groupBy_member by fastforce
    from one_share have "distinct (map (\<lambda>r. getMonth (date r)) vs)"
      unfolding vs by (rule distinct_pair_filter)
    moreover have "\<forall>r\<in>set vs. consistent (amount r)"
      using shares_ok by (simp add: vs)
    ultimately have "dataToSeries vs ! m = of_int (monthTotalInCents vs m) / 100"
      using m by (rule dataToSeries_nth_cents)
    then show ?thesis
      using k g by (simp add: unfold)
  qed
  have "sum_list (map (\<lambda>g. monthTotalInCents (snd g) m) groups) = T"
    by (simp add: groups T group_totals_sum)
  with len slot0 slots show ?thesis by simp
qed


text \<open>
  The claim as first stated assumes only that no month has two gross fee records, and
  adds the major-unit values of the slots. It fails on one January fee record of 10.00
  with two January settlements of status INVOICED (3.00 and 2.00) and one February
  settlement (1.00): the January slots hold 5 and 2, which add up to 7 and not to 10,
  since the second settlement overwrites the first in its series; the February slots
  hold 0 and 1, not 0 in total, since February has no gross fee record. (All values
  here are whole numbers, so the sums are the same in floating point.)
\<close>

theorem fee_series_round_trip_counterexample:
  "stackedTotal (getSeriesFromData id
      (loaded_series [fee_jan] [share_jan_invoiced, share_jan_invoiced_again, share_feb_invoiced])) 0
     \<noteq> monthTotal [fee_jan] 0 \<and>
   stackedTotal (getSeriesFromData id
      (loaded_series [fee_jan] [share_jan_invoiced, share_jan_invoiced_again, share_feb_invoiced])) 1
     \<noteq> monthTotal [fee_jan] 1"
proof -
  let ?shares = "[share_jan_invoiced, share_jan_invoiced_again, share_feb_invoiced]"
  have net: "getHostFeesWithoutShare [fee_jan] ?shares =
      [fee_jan\<lparr>amount := (amount fee_jan)\<lparr>valueInCents := 500, amount_value := 5\<rparr>\<rparr>]"
    by (simp add: getHostFeesWithoutShare_def totalHostFeeSharePerMonthInCents_def addShare_def
        withoutShare_def or_0_def getMonth_def fee_examples)
  have groups: "groupBy settlementStatus ?shares = [(''INVOICED'', ?shares)]"
    by (simp add: groupBy_def fee_examples)
  have stacked: "stackedTotal (getSeriesFromData id (loaded_series [fee_jan] ?shares)) m =
      dataToSeries [fee_jan\<lparr>amount := (amount fee_jan)\<lparr>valueInCents := 500, amount_value := 5\<rparr>\<rparr>] ! m +
      dataToSeries ?shares ! m" for m
    unfolding getSeriesFromData_def Let_def loaded_series_def get_default_def stackedTotal_def
    by (simp add: net groups)
  have "stackedTotal (getSeriesFromData id (loaded_series [fee_jan] ?shares)) 0 = 7"
    "stackedTotal (getSeriesFromData id (loaded_series [fee_jan] ?shares)) 1 = 1"
    unfolding stacked by (simp_all add: dataToSeries_nth getMonth_def fee_examples)
  moreover have "monthTotal [fee_jan] 0 = 10" "monthTotal [fee_jan] 1 = 0"
    by (simp_all add: monthTotal_def fee_jan_def getMonth_def)
  ultimately show ?thesis by simp
qed

theorem fee_series_round_trip_witness:
  "data (getSeriesFromData id (loaded_series [fee_jan] [share_jan_invoiced, share_jan_settled]) ! 0) ! 0 = 5 \<and>
   data (getSeriesFromData id (loaded_series [fee_jan] [share_jan_invoiced, share_jan_settled]) ! 1) ! 0 = 3 \<and>
   data (getSeriesFromData id (loaded_series [fee_jan] [share_jan_invoiced, share_jan_settled]) ! 2) ! 0 = 2 \<and>
   monthTotalInCents [fee_jan] 0 = 1000 \<and>
   monthTotalInCents [share_jan_invoiced, share_jan_settled] 0 = 500"
proof -
  let ?shares = "[share_jan_invoiced, share_jan_settled]"
  let ?ts = "loaded_series [fee_jan] ?shares"
  let ?out = "getSeriesFromData id ?ts"
  let ?groups = "[(''INVOICED'', [share_jan_invoiced]), (''SETTLED'', [share_jan_settled])]"
  have h: "[fee_jan] = get_default ?ts hostFees_nodes []"
    "?shares = get_default ?ts hostFeeShare_nodes []"
    by (simp_all add: loaded_series_def get_default_def)
  have groups: "?groups = groupBy settlementStatus ?shares"
    by (simp add: groupBy_def fee_examples)
  have G: "1000 = monthTotalInCents [fee_jan] 0"
    by (simp add: monthTotalInCents_def fee_jan_def getMonth_def)
  have T: "500 = monthTotalInCents ?shares 0"
    by (simp add: monthTotalInCents_def fee_examples getMonth_def)
  have one_fee: "distinct (map (\<lambda>r. getMonth (date r)) [fee_jan])"
    by simp
  have fees_ok: "\<forall>r\<in>set [fee_jan]. consistent (amount r)"
    by (simp add: fee_jan_def consistent_def)
  have shares_ok: "\<forall>s\<in>set ?shares. consistent (amount s)"
    by (simp add: fee_examples consistent_def)
  have one_share: "distinct (map (\<lambda>s. (getMonth (date s), settlementStatus s)) ?shares)"
    by (simp add: fee_examples)
  have covered: "\<forall>k<12. (\<forall>r\<in>set [fee_jan]. getMonth (date r) \<noteq> k) \<longrightarrow>
      monthTotalInCents ?shares k = 0"
    by (auto simp: monthTotalInCents_def fee_examples getMonth_def)
  have m: "(0::nat) < 12"
    by simp
  note inst = fee_series_round_trip [OF h groups refl one_fee fees_ok shares_ok one_share
      covered m G T, of id]
  then have slot0: "data (?out ! 0) ! 0 = 5"
    by simp
  from inst have all: "\<forall>k<length ?groups.
      data (?out ! Suc k) ! 0 = of_int (monthTotalInCents (snd (?groups ! k)) 0) / 100"
    by blast
  have k0: "0 < length ?groups" and k1: "1 < length ?groups"
    by simp_all
  have "data (?out ! Suc 0) ! 0 = 3"
    using all [rule_format, OF k0] by (simp add: monthTotalInCents_def fee_examples getMonth_def)
  then have slot1: "data (?out ! 1) ! 0 = 3"
    by simp
  have "data (?out ! Suc 1) ! 0 = 2"
    using all [rule_format, OF k1] by (simp add: monthTotalInCents_def fee_examples getMonth_def)
  then have slot2: "data (?out ! 2) ! 0 = 2"
    by (simp add: numeral_2_eq_2)
  from slot0 slot1 slot2 G T show ?thesis
    by (simp del: One_nat_def)
qed

section \<open>Properties of the year options\<close>

lemma decimal_digit:
  assumes "isDecimalDigit c"
  shows "digitValue c = Some (of_char c - 48)" and "(of_char c :: nat) - 48 < 10"
    and "\<not> isWhiteSpace c" and "c \<noteq> CHR ''-''" and "c \<noteq> CHR ''+''"
    and "c \<noteq> CHR ''x''" and "c \<noteq> CHR ''X''"
  using assms by (auto simp: isDecimalDigit_def digitValue_def isWhiteSpace_def)

lemma radixDigit_decimal:
  "isDecimalDigit c \<Longrightarrow> radixDigit 10 c = Some (of_char c - 48)"
  by (simp add: radixDigit_def decimal_digit)

lemma parseInt_four_digits:
  assumes "isDecimalDigit c1" "isDecimalDigit c2"
    "isDecimalDigit c3" "isDecimalDigit c4"
  shows "parseInt (split_first (c1 # c2 # c3 # c4 # CHR ''-'' # rest)) =
     Some (1000 * int (of_char c1 - 48) + 100 * int (of_char c2 - 48) +
           10 * int (of_char c3 - 48) + int (of_char c4 - 48))"
proof -
  have split: "split_first (c1 # c2 # c3 # c4 # CHR ''-'' # rest) = [c1, c2, c3, c4]"
    using assms by (simp add: split_first_def decimal_digit)
  have ws: "dropWhile isWhiteSpace [c1, c2, c3, c4] = [c1, c2, c3, c4]"
    using assms(1) by (simp add: decimal_digit)
  have sign: "stripSign [c1, c2, c3, c4] = (1, [c1, c2, c3, c4])"
    using assms(1) by (simp add: stripSign_def decimal_digit)
  have prefix: "stripPrefix [c1, c2, c3, c4] = (10, [c1, c2, c3, c4])"
    using assms(2) by (simp add: stripPrefix_def decimal_digit)
  have "parseInt [c1, c2, c3, c4] =
      Some (1000 * int (of_char c1 - 48) + 100 * int (of_char c2 - 48) +
            10 * int (of_char c3 - 48) + int (of_char c4 - 48))"
    unfolding parseInt_def ws sign prefix
    using assms by (simp add: prefix radixDigit_decimal)
  then show ?thesis
    by (simp only: split)
qed

lemma years_upto: "map (\<lambda>year. int year + first) [0 ..< n] = [first .. first + int n - 1]"
proof (induction n)
  case 0
  show ?case by simp
next
  case (Suc n)
  have "[first .. first + int (Suc n) - 1] = [first .. first + int n - 1] @ [first + int n]"
    using upto_rec2 [of first "first + int n"] by simp
  with Suc show ?case by simp
qed

text \<open>
  Claim C9 (available years), as amended. If the host is not loaded, the only option is
  the current year. If the host is loaded, its creation timestamp starts with four
  decimal digits followed by \<^verbatim>\<open>-\<close>, and the year \<open>first\<close> these digits spell is at most
  the current year plus one, the options are exactly the years from \<open>first\<close> through
  the current year, in increasing order (none when \<open>first\<close> is the year after the
  current one). The current year is a year of a JavaScript date, at most 275760.
\<close>

theorem active_years_options:
  "getActiveYearsOptions currentYear None =
     Inr [\<lparr>option_value = currentYear, label = currentYear\<rparr>] \<and>
   (createdAt h = c1 # c2 # c3 # c4 # CHR ''-'' # rest \<and>
    isDecimalDigit c1 \<and> isDecimalDigit c2 \<and>
    isDecimalDigit c3 \<and> isDecimalDigit c4 \<and>
    first = 1000 * int (of_char c1 - 48) + 100 * int (of_char c2 - 48) +
            10 * int (of_char c3 - 48) + int (of_char c4 - 48) \<and>
    first \<le> currentYear + 1 \<and> currentYear \<le> 275760 \<longrightarrow>
    getActiveYearsOptions currentYear (Some h) =
      Inr (map (\<lambda>year. \<lparr>option_value = year, label = year\<rparr>) [first .. currentYear]))"
proof (intro conjI impI)
  show "getActiveYearsOptions currentYear None =
     Inr [\<lparr>option_value = currentYear, label = currentYear\<rparr>]"
    by (simp add: getActiveYearsOptions_def)
next
  assume a: "createdAt h = c1 # c2 # c3 # c4 # CHR ''-'' # rest \<and>
    isDecimalDigit c1 \<and> isDecimalDigit c2 \<and>
    isDecimalDigit c3 \<and> isDecimalDigit c4 \<and>
    first = 1000 * int (of_char c1 - 48) + 100 * int (of_char c2 - 48) +
            10 * int (of_char c3 - 48) + int (of_char c4 - 48) \<and>
    first \<le> currentYear + 1 \<and> currentYear \<le> 275760"
  then have parsed: "parseInt (split_first (createdAt h)) = Some first"
    by (simp add: parseInt_four_digits)
  from a have "0 \<le> first" by simp
  with a have range: "\<not> (currentYear - first + 1 < 0 \<or> 2 ^ 32 \<le> currentYear - first + 1)"
    by simp
  have "map (\<lambda>year. int year + first) [0 ..< nat (currentYear - first + 1)] = [first .. currentYear]"
    using a by (simp add: years_upto)
  with parsed range show "getActiveYearsOptions currentYear (Some h) =
      Inr (map (\<lambda>year. \<lparr>option_value = year, label = year\<rparr>) [first .. currentYear])"
    by (simp add: getActiveYearsOptions_def Let_def)
qed

text \<open>
  The claim as first stated puts no bound on the creation year. For a host created in
  2022 and a clock that reads 2020 the array length is \<open>2020 - 2022 + 1 = -1\<close>, and
  the function throws instead of returning options.
\<close>

theorem active_years_options_counterexample:
  "getActiveYearsOptions 2020 (Some host_2022) = Inl RangeError"
  by (simp add: getActiveYearsOptions_def host_2022_def split_first_def parseInt_def
      stripSign_def stripPrefix_def isWhiteSpace_def radixDigit_def digitValue_def)

theorem active_years_options_witness:
  "getActiveYearsOptions 2021 None = Inr [\<lparr>option_value = 2021, label = 2021\<rparr>] \<and>
   getActiveYearsOptions 2021 (Some host_2019) =
     Inr [\<lparr>option_value = 2019, label = 2019\<rparr>, \<lparr>option_value = 2020, label = 2020\<rparr>,
          \<lparr>option_value = 2021, label = 2021\<rparr>]"
proof -
  have upto: "[2019 .. (2021::int)] = [2019, 2020, 2021]"
    by (simp add: upto.simps)
  show ?thesis
    using active_years_options [of 2021 host_2019 "CHR ''2''" "CHR ''0''" "CHR ''1''" "CHR ''9''"
        "''03-04T10:00:00.000Z''" 2019]
    by (simp add: host_2019_def isDecimalDigit_def upto)
qed

section \<open>Properties of the roster reconciler\<close>

lemmas roster_examples = ada_account_def bob_account_def admin_member_def pending_invitation_def
  loaded_data_def

lemma get_default_simps:
  "get_default None path d = d"
  "get_default (Some obj) path d = (case path obj of None \<Rightarrow> d | Some v \<Rightarrow> v)"
  by (simp_all add: get_default_def)

lemma getMembersFromProps_eq:
  assumes "members = (case Option.bind props_data account_members_nodes of
                        None \<Rightarrow> [empty_object] | Some ms \<Rightarrow> ms)"
    and "invitations = (case Option.bind props_data memberInvitations of
                          None \<Rightarrow> [empty_object] | Some invs \<Rightarrow> invs)"
  shows "getMembersFromProps props_data =
     (if members = [] \<and> invitations = [] then [empty_object]
      else members @ map omit_id invitations)"
  using assms
  by (cases props_data)
    (auto simp: getMembersFromProps_def Let_def get_default_simps EMPTY_MEMBERS_def
      split: option.splits)

text \<open>
  Claim C2 (roster length), as amended. With both sequences present, the roster has
  length \<open>members.length + invitations.length\<close>, and length 1 when both are empty. An
  absent sequence is not treated as empty: it is replaced by \<^verbatim>\<open>[{}]\<close> and counts as one
  entry, so the roster has one entry more than the present sequence when one is absent,
  and two entries when both are.
\<close>

theorem roster_length:
  assumes "members = Option.bind props_data account_members_nodes"
    and "invitations = Option.bind props_data memberInvitations"
  shows "length (getMembersFromProps props_data) =
     (case (members, invitations) of
        (Some ms, Some invs) \<Rightarrow> if ms = [] \<and> invs = [] then 1 else length ms + length invs
      | (Some ms, None) \<Rightarrow> length ms + 1
      | (None, Some invs) \<Rightarrow> 1 + length invs
      | (None, None) \<Rightarrow> 2)"
  by (simp add: getMembersFromProps_eq [OF refl refl] assms split: option.splits)

text \<open>
  The claim as first stated treats an absent sequence as empty and gives the roster
  length 1 when both are absent. With both absent each is replaced by \<^verbatim>\<open>[{}]\<close>, and
  the roster holds two placeholder entries.
\<close>

theorem roster_length_counterexample:
  "length (getMembersFromProps (Some \<lparr>memberInvitations = None, account_members_nodes = None\<rparr>)) = 2 \<and>
   length (getMembersFromProps (Some \<lparr>memberInvitations = None, account_members_nodes = None\<rparr>)) \<noteq> 1"
  by (simp add: getMembersFromProps_def get_default_def EMPTY_MEMBERS_def)

theorem roster_length_witness:
  "length (getMembersFromProps (loaded_data [admin_member] [pending_invitation])) = 2 \<and>
   length (getMembersFromProps (loaded_data [] [])) = 1 \<and>
   length (getMembersFromProps (Some \<lparr>memberInvitations = Some [pending_invitation],
      account_members_nodes = None\<rparr>)) = 2"
proof -
  have a: "Some ms = Option.bind (loaded_data ms invs) account_members_nodes"
    "Some invs = Option.bind (loaded_data ms invs) memberInvitations" for ms invs
    by (simp_all add: loaded_data_def)
  have b: "None = Option.bind (Some \<lparr>memberInvitations = Some [pending_invitation],
      account_members_nodes = None\<rparr>) account_members_nodes"
    "Some [pending_invitation] = Option.bind (Some \<lparr>memberInvitations = Some [pending_invitation],
      account_members_nodes = None\<rparr>) memberInvitations"
    by simp_all
  show ?thesis
    using roster_length [OF a] roster_length [OF a, of "[]" "[]"] roster_length [OF b]
    by simp
qed

text \<open>
  Claim C5 (roster composition), as amended. For all inputs in which the member
  sequence or the invitation sequence is not empty (an absent sequence standing for
  \<^verbatim>\<open>[{}]\<close>), the roster is the member records in source order followed by the
  invitation records in source order, each invitation record with its identifier field
  removed: positions below \<open>members.length\<close> hold the members, the following positions
  hold the invitations, and no entry at such a position carries an identifier.
\<close>

theorem roster_composition:
  assumes "members = (case Option.bind props_data account_members_nodes of
                        None \<Rightarrow> [empty_object] | Some ms \<Rightarrow> ms)"
    and "invitations = (case Option.bind props_data memberInvitations of
                          None \<Rightarrow> [empty_object] | Some invs \<Rightarrow> invs)"
    and "members \<noteq> [] \<or> invitations \<noteq> []"
    and "roster = getMembersFromProps props_data"
  shows "roster = members @ map omit_id invitations \<and>
         (\<forall>i<length members. roster ! i = members ! i) \<and>
         (\<forall>j<length invitations.
            roster ! (length members + j) = (invitations ! j)\<lparr>ident := None\<rparr> \<and>
            ident (roster ! (length members + j)) = None)"
proof -
  have eq: "roster = members @ map omit_id invitations"
    using assms(3) by (auto simp: assms(4) getMembersFromProps_eq [OF assms(1,2)])
  then show ?thesis
    by (simp add: nth_append omit_id_def)
qed

text \<open>
  The claim as first stated covers all inputs. When both sequences are present and
  empty the roster is not the empty concatenation but the one placeholder entry.
\<close>

theorem roster_composition_counterexample:
  "getMembersFromProps (loaded_data [] []) = [empty_object] \<and>
   getMembersFromProps (loaded_data [] []) \<noteq> [] @ map omit_id []"
  by (simp add: getMembersFromProps_def get_default_def EMPTY_MEMBERS_def loaded_data_def)

theorem roster_composition_witness:
  "getMembersFromProps (loaded_data [admin_member] [pending_invitation]) =
     [admin_member, pending_invitation\<lparr>ident := None\<rparr>] \<and>
   ident (getMembersFromProps (loaded_data [admin_member] [pending_invitation]) ! 1) = None"
proof -
  let ?data = "loaded_data [admin_member] [pending_invitation]"
  have a: "[admin_member] = (case Option.bind ?data account_members_nodes of
      None \<Rightarrow> [empty_object] | Some ms \<Rightarrow> ms)"
    "[pending_invitation] = (case Option.bind ?data memberInvitations of
      None \<Rightarrow> [empty_object] | Some invs \<Rightarrow> invs)"
    by (simp_all add: loaded_data_def)
  have b: "[admin_member] \<noteq> [] \<or> [pending_invitation] \<noteq> []"
    by simp
  show ?thesis
    using roster_composition [OF a b refl] by (simp add: omit_id_def)
qed

lemma admin_test:
  "truthy (js_and (JBool (role m = Some roles_ADMIN)) (field (ident m))) \<longleftrightarrow>
     role m = Some roles_ADMIN \<and> ident m \<noteq> None \<and> ident m \<noteq> Some []"
  by (cases "ident m") (simp_all add: js_and_def field_def)

lemma nbAdmins_append: "nbAdmins (xs @ ys) = nbAdmins xs + nbAdmins ys"
  by (simp add: nbAdmins_def)

lemma nbAdmins_omitted: "nbAdmins (map omit_id invitations) = 0"
  by (simp add: nbAdmins_def admin_test omit_id_def filter_empty_conv del: length_0_conv)

lemma nbAdmins_placeholder: "nbAdmins [empty_object] = 0"
  by (simp add: nbAdmins_def admin_test empty_object_def)

lemma admin_member_fields:
  "role admin_member = Some roles_ADMIN" "ident admin_member = Some ''m1''"
  by (simp_all add: admin_member_def roles_ADMIN_def)

lemma nbAdmins_admin_member: "nbAdmins [admin_member] = 1"
  by (simp add: nbAdmins_def admin_test admin_member_fields)

text \<open>
  Claim C6 (admin count). For every roster the admin count is the number of entries
  whose role is ADMIN and whose identifier is present, that is, holds a non-empty
  string (the test is JavaScript truth of \<^verbatim>\<open>m.id\<close>). The placeholder entry is never
  counted, entries derived from invitations are never counted, and on a reconciled
  roster the count is the count over the member records alone.
\<close>

theorem admin_count:
  "nbAdmins roster =
     length (filter (\<lambda>m. role m = Some roles_ADMIN \<and> ident m \<noteq> None \<and> ident m \<noteq> Some []) roster) \<and>
   nbAdmins EMPTY_MEMBERS = 0 \<and>
   nbAdmins (map omit_id invitations) = 0 \<and>
   nbAdmins (getMembersFromProps props_data) =
     nbAdmins (case Option.bind props_data account_members_nodes of None \<Rightarrow> [] | Some ms \<Rightarrow> ms)"
proof (intro conjI)
  show "nbAdmins roster =
     length (filter (\<lambda>m. role m = Some roles_ADMIN \<and> ident m \<noteq> None \<and> ident m \<noteq> Some []) roster)"
    by (simp add: nbAdmins_def admin_test)
  show "nbAdmins EMPTY_MEMBERS = 0"
    by (simp add: EMPTY_MEMBERS_def nbAdmins_placeholder)
  show "nbAdmins (map omit_id invitations) = 0"
    by (rule nbAdmins_omitted)
  show "nbAdmins (getMembersFromProps props_data) =
     nbAdmins (case Option.bind props_data account_members_nodes of None \<Rightarrow> [] | Some ms \<Rightarrow> ms)"
    by (simp add: getMembersFromProps_eq [OF refl refl] nbAdmins_append nbAdmins_omitted
        nbAdmins_placeholder split: option.splits)
      (simp add: nbAdmins_def)
qed

theorem admin_count_witness:
  "nbAdmins (getMembersFromProps (loaded_data [admin_member] [pending_invitation])) = 1"
  using admin_count [of "[admin_member]" "[pending_invitation]"
      "loaded_data [admin_member] [pending_invitation]"]
  by (simp add: roster_examples roles_ADMIN_def)

text \<open>
  Claim C7 (last-admin flag). For every roster and every targeted entry
  (\<^verbatim>\<open>this.state.currentMember\<close>, possibly none), the flag is truthy if and only if the
  admin count is 1, the targeted entry's role is ADMIN and its identifier is present
  (a non-empty string). It is falsy in particular when the targeted entry is derived
  from an invitation, and when no entry is targeted.
\<close>

theorem last_admin_flag:
  "(truthy (isLastAdmin (nbAdmins roster) currentMember) \<longleftrightarrow>
      nbAdmins roster = 1 \<and>
      (\<exists>m. currentMember = Some m \<and> role m = Some roles_ADMIN \<and>
           ident m \<noteq> None \<and> ident m \<noteq> Some [])) \<and>
   \<not> truthy (isLastAdmin (nbAdmins roster) (Some (omit_id invitation))) \<and>
   \<not> truthy (isLastAdmin (nbAdmins roster) None)"
proof -
  have flag: "truthy (isLastAdmin nb cur) \<longleftrightarrow>
      nb = 1 \<and> (\<exists>m. cur = Some m \<and> role m = Some roles_ADMIN \<and> ident m \<noteq> None \<and> ident m \<noteq> Some [])"
    for nb cur
  proof (cases cur)
    case None
    then show ?thesis by (simp add: isLastAdmin_def js_and_def field_def)
  next
    case (Some m)
    then show ?thesis
      by (cases "ident m") (auto simp: isLastAdmin_def js_and_def field_def)
  qed
  show ?thesis
    by (simp add: flag omit_id_def)
qed

theorem last_admin_flag_witness:
  "truthy (isLastAdmin (nbAdmins [admin_member]) (Some admin_member)) \<and>
   \<not> truthy (isLastAdmin (nbAdmins [admin_member]) (Some (omit_id pending_invitation)))"
  using last_admin_flag [of "[admin_member]" "Some admin_member" pending_invitation]
  by (simp add: nbAdmins_admin_member admin_member_fields)

lemma getMembersCollectiveIds_nth:
  "length (getMembersCollectiveIds members) = length members"
  "i < length members \<Longrightarrow>
     getMembersCollectiveIds members ! i = Option.bind (member (members ! i)) account_id"
  by (simp_all add: getMembersCollectiveIds_def Option.bind_def split: option.splits)

text \<open>
  Claim C8 (member-account identifiers). The sequence has one element per roster entry
  in roster order, but the element is read from the entry's field \<open>member\<close>. The
  entries of the roster carry their account in \<open>account\<close> (members) or \<open>memberAccount\<close>
  (invitations), as \<open>memberCollective\<close> reads them; so on the roster of one admin
  (account \<^verbatim>\<open>acc1\<close>) and one invitation (account \<^verbatim>\<open>acc2\<close>) both elements are undefined.
\<close>

theorem member_account_ids_undefined:
  "getMembersFromProps (loaded_data [admin_member] [pending_invitation]) =
     [admin_member, omit_id pending_invitation] \<and>
   getMembersCollectiveIds [admin_member, omit_id pending_invitation] = [None, None] \<and>
   Option.bind (memberCollective admin_member) account_id = Some ''acc1'' \<and>
   Option.bind (memberCollective (omit_id pending_invitation)) account_id = Some ''acc2''"
  by (simp add: getMembersCollectiveIds_def memberCollective_def getMembersFromProps_def
      get_default_def omit_id_def roster_examples)

end
